theory Spec2Isabelle
  imports Complex_Main "HOL-Library.Sublist"
begin

section \<open>The logo script \<^verbatim>\<open>svg/svg.py\<close>\<close>

text \<open>
  The script draws a hexagonal node-and-edge logo with the svgwrite library and saves it
  twice: once as drawn, once with colour-flash animations added. It has no input. The
  embedding follows the script top to bottom; every global it mutates (\<^verbatim>\<open>dwg\<close>,
  \<^verbatim>\<open>all_lines\<close>, \<^verbatim>\<open>circle_elems\<close>, \<^verbatim>\<open>anims\<close>) is a field of an explicit state.

  Python floats are idealised as real numbers. svgwrite is an external library and is
  modelled at the level of the calls the script makes: an element added to the drawing is
  referred to by a handle, its position among the drawing's children; the handle stands
  for the Python object reference, so a later attribute assignment through any alias is
  seen by the drawing.
\<close>

subsection \<open>Python values and errors\<close>

type_synonym point = "real \<times> real"

type_synonym handle = nat

datatype py_error = IndexError | KeyError

definition getitem_list :: "'a list \<Rightarrow> nat \<Rightarrow> py_error + 'a" where
  \<comment> \<open>\<^verbatim>\<open>xs[i]\<close> for a non-negative index\<close>
  "getitem_list xs i = (if i < length xs then Inr (xs ! i) else Inl IndexError)"

fun enumerate_py :: "nat \<Rightarrow> 'a list \<Rightarrow> (nat \<times> 'a) list" where
  "enumerate_py k [] = []"
| "enumerate_py k (x # xs) = (k, x) # enumerate_py (Suc k) xs"

subsection \<open>Constants (lines 22-38)\<close>

definition node_radius :: real where "node_radius = 15"
definition big_radius :: real where "big_radius = 50"
definition fan_dist :: real where "fan_dist = 90"
definition center :: point where "center = (105, 65)"
definition edge_stroke :: real where "edge_stroke = 5 / 2"

text \<open>The one-letter colour names \<^verbatim>\<open>b r g y n\<close> of the script carry a prefix here.\<close>

definition col_b :: string where "col_b = ''#4285F4''"
definition col_r :: string where "col_r = ''#DB4437''"
definition col_g :: string where "col_g = ''#0F9D58''"
definition col_y :: string where "col_y = ''#F4B400''"
definition col_n :: string where "col_n = ''#999999''"

definition center_colors :: "string list" where
  "center_colors = [col_b, col_r, col_y, col_b, col_r, col_y]"

text \<open>
  Lines 27-28 first bind \<^verbatim>\<open>edge_color\<close> and \<^verbatim>\<open>fan_color\<close> to other values; lines 37-38
  rebind both to \<^verbatim>\<open>n\<close> before either is used.
\<close>

definition edge_color :: string where "edge_color = col_n"
definition fan_color :: string where "fan_color = col_n"

subsection \<open>Geometry (lines 40-54)\<close>

definition ring_point :: "point \<Rightarrow> real \<Rightarrow> nat \<Rightarrow> point" where
  \<comment> \<open>the loop body, lines 44-46: the point appended in round \<^verbatim>\<open>i\<close>\<close>
  "ring_point c big_r i =
     (case c of (x, y) \<Rightarrow>
        (x + cos (2 * pi * real i / 6) * big_r, y - sin (2 * pi * real i / 6) * big_r))"

definition center_list :: "point \<Rightarrow> real \<Rightarrow> point list" where
  "center_list c big_r = map (ring_point c big_r) [0..<6]"

definition ring_centers :: "point list" where
  "ring_centers = center_list center big_radius"

definition outer_left_of :: "point \<Rightarrow> real \<Rightarrow> point" where
  "outer_left_of c d = (case c of (cx, cy) \<Rightarrow> (cx - d, cy))"

definition outer_right_of :: "point \<Rightarrow> real \<Rightarrow> point" where
  "outer_right_of c d = (case c of (cx, cy) \<Rightarrow> (cx + d, cy))"

definition outer_left :: point where "outer_left = outer_left_of center fan_dist"
definition outer_right :: point where "outer_right = outer_right_of center fan_dist"

subsection \<open>The drawing\<close>

text \<open>
  An element is a line (two end points, stroke colour and width), a circle (centre,
  radius, fill) or an animation (the animated attribute, the target element, and the
  attributes assigned by \<^verbatim>\<open>a[key] = value\<close>, in the order of their first assignment).
\<close>

datatype element =
    Line point point "string option" "real option"
  | Circle point real "string option"
  | Animate string handle "(string \<times> string) list"

text \<open>
  svgwrite's constructor is \<^verbatim>\<open>Drawing(filename='noname.svg', size=('100%', '100%'), **extra)\<close>;
  the library is not part of this repository, and the two parameters are modelled after
  that published signature. A length is a number of user units or a percentage; the
  first argument is a file name by intent, and Python lets the script pass a tuple.
\<close>

datatype svg_length = Units nat | Percent nat

datatype py_filename = Name string | Tuple nat nat

record drawing =
  filename :: py_filename
  canvas :: "svg_length \<times> svg_length"
  elements :: "element list"

definition Drawing :: "py_filename \<Rightarrow> drawing" where
  "Drawing f = \<lparr>filename = f, canvas = (Percent 100, Percent 100), elements = []\<rparr>"

definition add :: "element \<Rightarrow> drawing \<Rightarrow> handle \<times> drawing" where
  \<comment> \<open>\<^verbatim>\<open>dwg.add(e)\<close> appends the element and returns it\<close>
  "add e d = (length (elements d), d\<lparr>elements := elements d @ [e]\<rparr>)"

text \<open>
  The script strokes lines only, and assigns and reads attributes of animations only; on
  the other elements the three functions below leave the element as it is, or find no key.
\<close>

fun set_stroke :: "string \<Rightarrow> real \<Rightarrow> element \<Rightarrow> element" where
  "set_stroke c w (Line p q _ _) = Line p q (Some c) (Some w)"
| "set_stroke c w e = e"

definition stroke_elem :: "handle \<Rightarrow> string \<Rightarrow> real \<Rightarrow> drawing \<Rightarrow> drawing" where
  \<comment> \<open>\<^verbatim>\<open>l.stroke(color, width)\<close> on the element behind the handle\<close>
  "stroke_elem l c w d = d\<lparr>elements := (elements d)[l := set_stroke c w (elements d ! l)]\<rparr>"

fun assign :: "'k \<Rightarrow> 'v \<Rightarrow> ('k \<times> 'v) list \<Rightarrow> ('k \<times> 'v) list" where
  \<comment> \<open>\<^verbatim>\<open>d[k] = v\<close> on a dict kept in insertion order\<close>
  "assign k v [] = [(k, v)]"
| "assign k v (kv # kvs) = (if fst kv = k then (k, v) # kvs else kv # assign k v kvs)"

fun setitem :: "string \<Rightarrow> string \<Rightarrow> element \<Rightarrow> element" where
  \<comment> \<open>\<^verbatim>\<open>a[key] = value\<close>\<close>
  "setitem k v (Animate p h as) = Animate p h (assign k v as)"
| "setitem k v e = e"

fun getitem :: "string \<Rightarrow> element \<Rightarrow> py_error + string" where
  \<comment> \<open>\<^verbatim>\<open>a[key]\<close>\<close>
  "getitem k (Animate p h as) = (case map_of as k of None \<Rightarrow> Inl KeyError | Some v \<Rightarrow> Inr v)"
| "getitem k e = Inl KeyError"

record state =
  dwg :: drawing
  all_lines :: "handle list"
  circle_elems :: "handle list"
  anims :: "handle list"
  files :: "(string \<times> drawing) list"

definition saveas :: "string \<Rightarrow> state \<Rightarrow> state" where
  \<comment> \<open>\<^verbatim>\<open>dwg.saveas(name)\<close> writes the drawing as it is now under the given name\<close>
  "saveas name s =
     (let d = (dwg s)\<lparr>filename := Name name\<rparr>
      in s\<lparr>dwg := d, files := files s @ [(name, d)]\<rparr>)"

definition init_state :: state where
  "init_state = \<lparr>dwg = Drawing (Tuple 210 130), all_lines = [], circle_elems = [],
                 anims = [], files = []\<rparr>"

subsection \<open>Edges (lines 56-80)\<close>

definition add_line :: "point \<Rightarrow> point \<Rightarrow> state \<Rightarrow> state" where
  \<comment> \<open>\<^verbatim>\<open>l = dwg.add(dwg.line(p, q)); l.stroke(edge_color, edge_stroke); all_lines.append(l)\<close>\<close>
  "add_line p q s =
     (case add (Line p q None None) (dwg s) of (l, d) \<Rightarrow>
        s\<lparr>dwg := stroke_elem l edge_color edge_stroke d, all_lines := all_lines s @ [l]\<rparr>)"

definition draw_fan_edges :: "state \<Rightarrow> py_error + state" where
  "draw_fan_edges s =
     (case getitem_list ring_centers 3 of
        Inl e \<Rightarrow> Inl e
      | Inr left_pt \<Rightarrow>
          (case getitem_list ring_centers 0 of
             Inl e \<Rightarrow> Inl e
           | Inr right_pt \<Rightarrow>
               Inr (add_line outer_right right_pt (add_line outer_left left_pt s))))"

definition skip_pair :: "nat \<Rightarrow> nat \<Rightarrow> bool" where
  \<comment> \<open>the chain of \<^verbatim>\<open>continue\<close> tests, lines 66-77\<close>
  "skip_pair i j =
     (if i > j \<or> i = j then True
      else if i mod 3 = j mod 3 then True
      else if i mod 3 = 1 \<and> j mod 3 = 2 then True
      else if j mod 3 = 1 \<and> i mod 3 = 2 then True
      else if i = 0 \<and> j = 3 then True
      else if i = 3 \<and> j = 0 then True
      else False)"

definition ring_inner :: "nat \<Rightarrow> point \<Rightarrow> (nat \<times> point) list \<Rightarrow> state \<Rightarrow> state" where
  "ring_inner i c jds s =
     fold (\<lambda>jd s'. case jd of (j, d) \<Rightarrow> if skip_pair i j then s' else add_line c d s') jds s"

definition draw_ring_edges :: "point list \<Rightarrow> state \<Rightarrow> state" where
  "draw_ring_edges rc s =
     fold (\<lambda>ic s'. case ic of (i, c) \<Rightarrow> ring_inner i c (enumerate_py 0 rc) s')
       (enumerate_py 0 rc) s"

subsection \<open>Circles (lines 82-88)\<close>

definition add_circle :: "point \<Rightarrow> real \<Rightarrow> string \<Rightarrow> state \<Rightarrow> handle \<times> state" where
  \<comment> \<open>\<^verbatim>\<open>dwg.add(dwg.circle(c, r, fill=col))\<close>\<close>
  "add_circle c r col s =
     (case add (Circle c r (Some col)) (dwg s) of (h, d) \<Rightarrow> (h, s\<lparr>dwg := d\<rparr>))"

fun draw_ring_circles :: "(nat \<times> point) list \<Rightarrow> state \<Rightarrow> py_error + state" where
  "draw_ring_circles [] s = Inr s"
| "draw_ring_circles ((i, c) # ics) s =
     (case getitem_list center_colors i of
        Inl e \<Rightarrow> Inl e
      | Inr col \<Rightarrow>
          (case add_circle c node_radius col s of (elem, s') \<Rightarrow>
             draw_ring_circles ics (s'\<lparr>circle_elems := circle_elems s' @ [elem]\<rparr>)))"

subsection \<open>The static drawing (lines 19-115)\<close>

definition draw_static :: "py_error + handle \<times> handle \<times> state" where
  "draw_static =
     (case draw_fan_edges init_state of
        Inl e \<Rightarrow> Inl e
      | Inr s1 \<Rightarrow>
          (case draw_ring_circles (enumerate_py 0 ring_centers)
                  (draw_ring_edges ring_centers s1) of
             Inl e \<Rightarrow> Inl e
           | Inr s2 \<Rightarrow>
               (case add_circle outer_left node_radius fan_color s2 of
                  (left_circle, s3) \<Rightarrow>
                    (case add_circle outer_right node_radius fan_color s3 of
                       (right_circle, s4) \<Rightarrow>
                         Inr (left_circle, right_circle, saveas ''cayley.svg'' s4)))))"

subsection \<open>Formatting \<^verbatim>\<open>"+%0.2fs" % t\<close>\<close>

definition digit_char :: "nat \<Rightarrow> char" where
  "digit_char d = ''0123456789'' ! (d mod 10)"

function dec_digits :: "nat \<Rightarrow> string" where
  "dec_digits m = (if m < 10 then [digit_char m] else dec_digits (m div 10) @ [digit_char m])"
  by pat_completeness auto
termination
  by (relation "measure id") auto

definition round_half_even :: "real \<Rightarrow> int" where
  "round_half_even z =
     (let f = \<lfloor>z\<rfloor> in
        if z - of_int f < 1 / 2 then f
        else if 1 / 2 < z - of_int f then f + 1
        else if even f then f else f + 1)"

definition fmt_2f :: "real \<Rightarrow> string" where
  \<comment> \<open>\<^verbatim>\<open>"%0.2f" % x\<close>: two decimals, rounded to nearest, a tie to the even digit\<close>
  "fmt_2f x =
     (let h = nat (round_half_even (\<bar>x\<bar> * 100))
      in (if x < 0 then ''-'' else []) @ dec_digits (h div 100) @ ''.'' @
         [digit_char (h div 10), digit_char h])"

definition fmt_begin :: "real \<Rightarrow> string" where
  "fmt_begin t = ''+'' @ fmt_2f t @ ''s''"

subsection \<open>Animations (lines 91-134)\<close>

definition highlight_step :: "string \<Rightarrow> handle \<Rightarrow> string \<Rightarrow> real \<Rightarrow> element" where
  \<comment> \<open>lines 97-101\<close>
  "highlight_step prop element orig_color start =
     setitem ''dur'' ''1.0s''
       (setitem ''begin'' (fmt_begin start)
          (setitem ''to'' col_g
             (setitem ''from'' orig_color (Animate prop element []))))"

definition restore_step :: "string \<Rightarrow> handle \<Rightarrow> string \<Rightarrow> real \<Rightarrow> element" where
  \<comment> \<open>lines 105-109\<close>
  "restore_step prop element orig_color start =
     setitem ''dur'' ''1.2s''
       (setitem ''begin'' (fmt_begin (start + 1))
          (setitem ''to'' orig_color
             (setitem ''from'' col_g (Animate prop element []))))"

definition flash :: "handle \<Rightarrow> string \<Rightarrow> real \<Rightarrow> bool \<Rightarrow> state \<Rightarrow> handle \<times> state" where
  "flash element orig_color start is_line s =
     (let prop = (if is_line then ''stroke'' else ''fill'')
      in case add (highlight_step prop element orig_color start) (dwg s) of (a1, d1) \<Rightarrow>
         case add (restore_step prop element orig_color start) d1 of (a2, d2) \<Rightarrow>
           (a2, s\<lparr>dwg := d2, anims := (anims s @ [a1]) @ [a2]\<rparr>))"

datatype target = LeftCircle | RightCircle | LineAt nat

definition flash_target ::
  "handle \<Rightarrow> handle \<Rightarrow> target \<Rightarrow> real \<Rightarrow> bool \<Rightarrow> state \<Rightarrow> py_error + handle \<times> state" where
  \<comment> \<open>one call \<^verbatim>\<open>flash(target, n, start, is_line)\<close> of lines 116-131\<close>
  "flash_target left_circle right_circle tg start is_line s =
     (case tg of
        LeftCircle \<Rightarrow> Inr (flash left_circle col_n start is_line s)
      | RightCircle \<Rightarrow> Inr (flash right_circle col_n start is_line s)
      | LineAt k \<Rightarrow>
          (case getitem_list (all_lines s) k of
             Inl e \<Rightarrow> Inl e
           | Inr l \<Rightarrow> Inr (flash l col_n start is_line s)))"

text \<open>
  The calls of lines 117-130 (their results are dropped), in order: target, start time,
  \<^verbatim>\<open>is_line\<close>. The calls of line 116 and line 131 are bound to \<^verbatim>\<open>first\<close> and \<^verbatim>\<open>final\<close>.
\<close>

definition flash_calls :: "(target \<times> real \<times> bool) list" where
  "flash_calls =
     [(LineAt 0, 1 / 2, True), (LineAt 7, 1, True), (LineAt 3, 3 / 2, True),
      (LineAt 9, 1, True), (LineAt 5, 3 / 2, True), (LineAt 1, 2, True),
      (RightCircle, 5 / 2, False),
      (LeftCircle, 7 / 2, False),
      (LineAt 0, 4, True), (LineAt 6, 9 / 2, True), (LineAt 4, 5, True),
      (LineAt 8, 9 / 2, True), (LineAt 2, 5, True), (LineAt 1, 11 / 2, True)]"

fun run_flashes ::
  "handle \<Rightarrow> handle \<Rightarrow> (target \<times> real \<times> bool) list \<Rightarrow> state \<Rightarrow> py_error + state" where
  "run_flashes lc rc [] s = Inr s"
| "run_flashes lc rc ((tg, start, is_line) # calls) s =
     (case flash_target lc rc tg start is_line s of
        Inl e \<Rightarrow> Inl e
      | Inr (a, s') \<Rightarrow> run_flashes lc rc calls s')"

fun rewrite_begins ::
  "(handle \<Rightarrow> string) \<Rightarrow> handle \<Rightarrow> handle list \<Rightarrow> drawing \<Rightarrow> py_error + drawing" where
  \<comment> \<open>lines 133-134; \<^verbatim>\<open>get_id\<close> is svgwrite's naming of elements\<close>
  "rewrite_begins get_id final [] d = Inr d"
| "rewrite_begins get_id final (anim # rest) d =
     (case getitem ''begin'' (elements d ! anim) of
        Inl e \<Rightarrow> Inl e
      | Inr bg \<Rightarrow>
          rewrite_begins get_id final rest
            (d\<lparr>elements := (elements d)[anim :=
                 setitem ''begin'' (bg @ ''; '' @ get_id final @ ''.end'' @ bg)
                   (elements d ! anim)]\<rparr>))"

definition script_flashes :: "handle \<Rightarrow> handle \<Rightarrow> state \<Rightarrow> py_error + handle \<times> state" where
  \<comment> \<open>lines 116-131; the result is \<^verbatim>\<open>final\<close>\<close>
  "script_flashes left_circle right_circle s =
     (case flash_target left_circle right_circle LeftCircle 0 False s of
        Inl e \<Rightarrow> Inl e
      | Inr (first, s1) \<Rightarrow>
          (case run_flashes left_circle right_circle flash_calls s1 of
             Inl e \<Rightarrow> Inl e
           | Inr s2 \<Rightarrow> flash_target left_circle right_circle RightCircle 6 False s2))"

definition animate :: "(handle \<Rightarrow> string) \<Rightarrow> handle \<Rightarrow> handle \<Rightarrow> state \<Rightarrow> py_error + state" where
  \<comment> \<open>lines 116-136\<close>
  "animate get_id left_circle right_circle s =
     (case script_flashes left_circle right_circle s of
        Inl e \<Rightarrow> Inl e
      | Inr (final, s') \<Rightarrow>
          (case rewrite_begins get_id final (anims s') (dwg s') of
             Inl e \<Rightarrow> Inl e
           | Inr d \<Rightarrow> Inr (saveas ''cayley_active.svg'' (s'\<lparr>dwg := d\<rparr>))))"

definition script :: "(handle \<Rightarrow> string) \<Rightarrow> py_error + state" where
  "script get_id =
     (case draw_static of
        Inl e \<Rightarrow> Inl e
      | Inr (left_circle, right_circle, s) \<Rightarrow> animate get_id left_circle right_circle s)"

section \<open>Notions used in the statements\<close>

text \<open>
  None of the following is part of the script: they name what the script is expected to
  have built, and observations of a state, so that the theorems below can say it.
\<close>

definition edge_line :: "point \<Rightarrow> point \<Rightarrow> element" where
  \<comment> \<open>a line with the default stroke colour and width\<close>
  "edge_line p q = Line p q (Some edge_color) (Some edge_stroke)"

definition extend :: "element list \<Rightarrow> state \<Rightarrow> state" where
  \<comment> \<open>the state with the given lines drawn and appended to \<^verbatim>\<open>all_lines\<close>\<close>
  "extend es s =
     s\<lparr>dwg := (dwg s)\<lparr>elements := elements (dwg s) @ es\<rparr>,
       all_lines := all_lines s @
         [length (elements (dwg s))..<length (elements (dwg s)) + length es]\<rparr>"

definition kept :: "nat \<Rightarrow> point \<Rightarrow> (nat \<times> point) list \<Rightarrow> element list" where
  \<comment> \<open>the lines one round of the outer loop draws\<close>
  "kept i c jds =
     map (\<lambda>jd. edge_line c (snd jd)) (filter (\<lambda>jd. \<not> skip_pair i (fst jd)) jds)"

definition new_elements :: "state \<Rightarrow> state \<Rightarrow> element list" where
  \<comment> \<open>what was added to the drawing between two states\<close>
  "new_elements s s' = drop (length (elements (dwg s))) (elements (dwg s'))"

definition rp :: "nat \<Rightarrow> point" where
  "rp i = ring_point center big_radius i"

definition euclid_dist :: "point \<Rightarrow> point \<Rightarrow> real" where
  "euclid_dist p q = sqrt ((fst p - fst q)\<^sup>2 + (snd p - snd q)\<^sup>2)"

definition static_elements :: "element list" where
  "static_elements =
     [edge_line outer_left (rp 3), edge_line outer_right (rp 0),
      edge_line (rp 0) (rp 1), edge_line (rp 0) (rp 2), edge_line (rp 0) (rp 4),
      edge_line (rp 0) (rp 5), edge_line (rp 1) (rp 3), edge_line (rp 2) (rp 3),
      edge_line (rp 3) (rp 4), edge_line (rp 3) (rp 5),
      Circle (rp 0) node_radius (Some col_b), Circle (rp 1) node_radius (Some col_r),
      Circle (rp 2) node_radius (Some col_y), Circle (rp 3) node_radius (Some col_b),
      Circle (rp 4) node_radius (Some col_r), Circle (rp 5) node_radius (Some col_y),
      Circle outer_left node_radius (Some col_n), Circle outer_right node_radius (Some col_n)]"

definition static_drawing :: drawing where
  "static_drawing =
     \<lparr>filename = Name ''cayley.svg'', canvas = (Percent 100, Percent 100),
      elements = static_elements\<rparr>"

definition static_state :: state where
  "static_state =
     \<lparr>dwg = static_drawing, all_lines = [0, 1, 2, 3, 4, 5, 6, 7, 8, 9],
      circle_elems = [10, 11, 12, 13, 14, 15], anims = [],
      files = [(''cayley.svg'', static_drawing)]\<rparr>"

definition prop_of :: "bool \<Rightarrow> string" where
  "prop_of is_line = (if is_line then ''stroke'' else ''fill'')"

definition add_anims :: "element list \<Rightarrow> state \<Rightarrow> state" where
  \<comment> \<open>the state with the given animations added and appended to \<^verbatim>\<open>anims\<close>\<close>
  "add_anims es s =
     s\<lparr>dwg := (dwg s)\<lparr>elements := elements (dwg s) @ es\<rparr>,
       anims := anims s @
         [length (elements (dwg s))..<length (elements (dwg s)) + length es]\<rparr>"

definition flash_steps :: "handle \<Rightarrow> string \<Rightarrow> real \<Rightarrow> bool \<Rightarrow> element list" where
  "flash_steps h oc t il =
     [highlight_step (prop_of il) h oc t, restore_step (prop_of il) h oc t]"

definition in_range :: "handle list \<Rightarrow> target \<Rightarrow> bool" where
  "in_range ls tg = (case tg of LineAt k \<Rightarrow> k < length ls | _ \<Rightarrow> True)"

definition target_handle :: "handle \<Rightarrow> handle \<Rightarrow> handle list \<Rightarrow> target \<Rightarrow> handle" where
  "target_handle lc rc ls tg =
     (case tg of LeftCircle \<Rightarrow> lc | RightCircle \<Rightarrow> rc | LineAt k \<Rightarrow> ls ! k)"

definition call_steps ::
  "handle \<Rightarrow> handle \<Rightarrow> handle list \<Rightarrow> target \<times> real \<times> bool \<Rightarrow> element list" where
  "call_steps lc rc ls call =
     flash_steps (target_handle lc rc ls (fst call)) col_n (fst (snd call)) (snd (snd call))"

definition begin_of :: "element \<Rightarrow> string" where
  "begin_of e = (case getitem ''begin'' e of Inr bg \<Rightarrow> bg | Inl err \<Rightarrow> [])"

definition has_begin :: "element \<Rightarrow> bool" where
  "has_begin e = (case getitem ''begin'' e of Inr bg \<Rightarrow> True | Inl err \<Rightarrow> False)"

definition chained :: "string \<Rightarrow> string \<Rightarrow> string" where
  \<comment> \<open>the begin attribute \<^verbatim>\<open>bg\<close> chained to the end of the element named \<^verbatim>\<open>fid\<close>\<close>
  "chained fid bg = bg @ ''; '' @ fid @ ''.end'' @ bg"

definition rechain :: "string \<Rightarrow> element \<Rightarrow> element" where
  "rechain fid e = setitem ''begin'' (chained fid (begin_of e)) e"

definition all_flash_calls :: "(target \<times> real \<times> bool) list" where
  \<comment> \<open>lines 116-131\<close>
  "all_flash_calls = (LeftCircle, 0, False) # flash_calls @ [(RightCircle, 6, False)]"

definition step_times :: "real list" where
  \<comment> \<open>the start times of the steps, in the order the calls register them\<close>
  "step_times = concat (map (\<lambda>call. [fst (snd call), fst (snd call) + 1]) all_flash_calls)"

definition line_uses :: "nat list" where
  \<comment> \<open>the indices \<^verbatim>\<open>k\<close> of the accesses \<^verbatim>\<open>all_lines[k]\<close>, in order\<close>
  "line_uses =
     concat (map (\<lambda>call. case fst call of LineAt k \<Rightarrow> [k] | _ \<Rightarrow> []) all_flash_calls)"

definition anim_elements :: "element list" where
  "anim_elements =
     concat (map (call_steps 16 17 [0, 1, 2, 3, 4, 5, 6, 7, 8, 9]) all_flash_calls)"

definition flashed_state :: state where
  "flashed_state = add_anims anim_elements static_state"

definition active_drawing :: "(handle \<Rightarrow> string) \<Rightarrow> drawing" where
  "active_drawing get_id =
     \<lparr>filename = Name ''cayley_active.svg'', canvas = (Percent 100, Percent 100),
      elements = static_elements @ map (rechain (get_id 49)) anim_elements\<rparr>"

definition final_state :: "(handle \<Rightarrow> string) \<Rightarrow> state" where
  "final_state get_id =
     \<lparr>dwg = active_drawing get_id, all_lines = [0, 1, 2, 3, 4, 5, 6, 7, 8, 9],
      circle_elems = [10, 11, 12, 13, 14, 15],
      anims = [18..<50],
      files = [(''cayley.svg'', static_drawing),
               (''cayley_active.svg'', active_drawing get_id)]\<rparr>"

definition is_animate :: "element \<Rightarrow> bool" where
  "is_animate e = (case e of Animate p h as \<Rightarrow> True | _ \<Rightarrow> False)"

definition n_animations :: "drawing \<Rightarrow> nat" where
  "n_animations d = length (filter is_animate (elements d))"

definition saved_files :: "(handle \<Rightarrow> string) \<Rightarrow> (string \<times> drawing) list" where
  \<comment> \<open>the files the script has written when it ends, in the order of writing\<close>
  "saved_files get_id = (case script get_id of Inl e \<Rightarrow> [] | Inr s \<Rightarrow> files s)"

definition before_rewrite :: "py_error + handle \<times> state" where
  \<comment> \<open>\<^verbatim>\<open>final\<close> and the state when line 131 has run\<close>
  "before_rewrite =
     (case draw_static of
        Inl e \<Rightarrow> Inl e
      | Inr (left_circle, right_circle, s) \<Rightarrow> script_flashes left_circle right_circle s)"

definition step_begins :: "state \<Rightarrow> (py_error + string) list" where
  \<comment> \<open>the begin attribute of every registered step, in the order of \<^verbatim>\<open>anims\<close>\<close>
  "step_begins s = map (\<lambda>a. getitem ''begin'' (elements (dwg s) ! a)) (anims s)"

definition lines_of :: "state \<Rightarrow> element list" where
  \<comment> \<open>the elements \<^verbatim>\<open>all_lines\<close> refers to, in its order\<close>
  "lines_of s = map (\<lambda>l. elements (dwg s) ! l) (all_lines s)"

definition circles_of :: "state \<Rightarrow> element list" where
  "circles_of s = map (\<lambda>c. elements (dwg s) ! c) (circle_elems s)"

definition auto_id :: "handle \<Rightarrow> string" where
  \<comment> \<open>one naming of elements, for statements at a concrete input\<close>
  "auto_id h = ''id'' @ dec_digits (Suc h)"

definition lex_less :: "nat \<times> nat \<Rightarrow> nat \<times> nat \<Rightarrow> bool" where
  "lex_less p q = (fst p < fst q \<or> (fst p = fst q \<and> snd p < snd q))"

definition script_lines :: "(handle \<Rightarrow> string) \<Rightarrow> element list" where
  "script_lines get_id = (case script get_id of Inl e \<Rightarrow> [] | Inr s \<Rightarrow> lines_of s)"

definition ring_pairs :: "(nat \<times> nat) list" where
  "ring_pairs = [(0, 1), (0, 2), (0, 4), (0, 5), (1, 3), (2, 3), (3, 4), (3, 5)]"

definition fill_of :: "element \<Rightarrow> string option" where
  "fill_of e = (case e of Circle c r f \<Rightarrow> f | _ \<Rightarrow> None)"

definition stroke_of :: "element \<Rightarrow> string option" where
  "stroke_of e = (case e of Line p q c w \<Rightarrow> c | _ \<Rightarrow> None)"

definition from_to :: "element \<Rightarrow> (py_error + string) \<times> (py_error + string)" where
  "from_to e = (getitem ''from'' e, getitem ''to'' e)"

definition final_elements :: "(handle \<Rightarrow> string) \<Rightarrow> element list" where
  "final_elements get_id =
     (case script get_id of Inl e \<Rightarrow> [] | Inr s \<Rightarrow> elements (dwg s))"

definition script_circles :: "(handle \<Rightarrow> string) \<Rightarrow> element list" where
  "script_circles get_id = (case script get_id of Inl e \<Rightarrow> [] | Inr s \<Rightarrow> circles_of s)"

definition green_free :: "element \<Rightarrow> bool" where
  \<comment> \<open>a line or circle that is not green, or an animation step to green or from green\<close>
  "green_free e =
     (case e of
        Line p q c w \<Rightarrow> c = Some col_n
      | Circle c r f \<Rightarrow> f \<in> {Some col_b, Some col_r, Some col_y, Some col_n}
      | Animate p h as \<Rightarrow>
          from_to e \<in> {(Inr col_n, Inr col_g), (Inr col_g, Inr col_n)})"

definition static_file :: "(handle \<Rightarrow> string) \<Rightarrow> drawing" where
  "static_file get_id = snd (saved_files get_id ! 0)"

definition active_file :: "(handle \<Rightarrow> string) \<Rightarrow> drawing" where
  "active_file get_id = snd (saved_files get_id ! 1)"

section \<open>The script, stage by stage\<close>

lemma extend_Nil: "extend [] s = s"
  by (simp add: extend_def)

lemma upt_join: "[n..<n + a] @ [n + a..<n + a + b] = [n..<n + (a + b)]"
  using upt_add_eq_append [of n "n + a" b] by (simp add: add.assoc)

lemma extend_extend: "extend es (extend ds s) = extend (ds @ es) s"
  by (simp add: extend_def upt_join)

lemma add_line_extend: "add_line p q s = extend [edge_line p q] s"
  by (simp add: add_line_def add_def stroke_elem_def extend_def edge_line_def)

lemma ring_inner_extend: "ring_inner i c jds s = extend (kept i c jds) s"
proof (induction jds arbitrary: s)
  case Nil
  show ?case by (simp add: ring_inner_def kept_def extend_Nil)
next
  case (Cons jd jds)
  obtain j d where jd: "jd = (j, d)" by (cases jd)
  have step: "ring_inner i c (jd # jds) s =
      ring_inner i c jds (if skip_pair i j then s else add_line c d s)"
    by (simp add: ring_inner_def jd)
  have "ring_inner i c (jd # jds) s =
      extend (kept i c jds) (if skip_pair i j then s else extend [edge_line c d] s)"
    by (simp only: step Cons.IH add_line_extend)
  also have "\<dots> = extend (kept i c (jd # jds)) s"
    by (simp add: extend_extend kept_def jd)
  finally show ?case .
qed

lemma outer_fold:
  "fold (\<lambda>ic. extend (kept (fst ic) (snd ic) jds)) ics s =
     extend (concat (map (\<lambda>ic. kept (fst ic) (snd ic) jds) ics)) s"
  by (induction ics arbitrary: s) (simp_all add: extend_Nil extend_extend)

lemma outer_extend:
  "fold (\<lambda>ic s'. case ic of (i, c) \<Rightarrow> ring_inner i c jds s') ics s =
     extend (concat (map (\<lambda>ic. kept (fst ic) (snd ic) jds) ics)) s"
proof -
  have "(\<lambda>ic s'. case ic of (i, c) \<Rightarrow> ring_inner i c jds s') =
        (\<lambda>ic. extend (kept (fst ic) (snd ic) jds))"
    by (auto simp: fun_eq_iff ring_inner_extend)
  then show ?thesis by (simp only: outer_fold)
qed

lemma draw_ring_edges_extend:
  "draw_ring_edges rc s =
     extend (concat (map (\<lambda>ic. kept (fst ic) (snd ic) (enumerate_py 0 rc))
       (enumerate_py 0 rc))) s"
  by (simp add: draw_ring_edges_def outer_extend)

lemma draw_ring_edges_six:
  "draw_ring_edges [p0, p1, p2, p3, p4, p5] s =
     extend [edge_line p0 p1, edge_line p0 p2, edge_line p0 p4, edge_line p0 p5,
             edge_line p1 p3, edge_line p2 p3, edge_line p3 p4, edge_line p3 p5] s"
  by (simp add: draw_ring_edges_extend kept_def skip_pair_def)

lemma upt6: "[0..<6] = [0, 1, 2, 3, 4, 5]"
  by (simp add: upt_rec)

lemma ring_centers_eq: "ring_centers = [rp 0, rp 1, rp 2, rp 3, rp 4, rp 5]"
  by (simp add: ring_centers_def center_list_def upt6 rp_def)

lemma draw_fan_edges_eq:
  "draw_fan_edges s =
     Inr (extend [edge_line outer_left (rp 3), edge_line outer_right (rp 0)] s)"
  by (simp add: draw_fan_edges_def getitem_list_def ring_centers_eq add_line_extend
      extend_extend)

lemma add_circle_eq:
  "add_circle c r col s =
     (length (elements (dwg s)),
      s\<lparr>dwg := (dwg s)\<lparr>elements := elements (dwg s) @ [Circle c r (Some col)]\<rparr>\<rparr>)"
  by (simp add: add_circle_def add_def)

lemma draw_static_eq: "draw_static = Inr (16, 17, static_state)"
  by (simp add: draw_static_def draw_fan_edges_eq ring_centers_eq draw_ring_edges_six
      extend_extend getitem_list_def center_colors_def add_circle_eq extend_def init_state_def
      Drawing_def saveas_def static_state_def static_drawing_def static_elements_def
      fan_color_def upt_rec Let_def)

lemma add_anims_Nil: "add_anims [] s = s"
  by (simp add: add_anims_def)

lemma add_anims_add_anims: "add_anims es (add_anims ds s) = add_anims (ds @ es) s"
  by (simp add: add_anims_def upt_join)

lemma all_lines_add_anims: "all_lines (add_anims es s) = all_lines s"
  by (simp add: add_anims_def)

lemma flash_eq:
  "flash h oc t il s =
     (Suc (length (elements (dwg s))), add_anims (flash_steps h oc t il) s)"
  by (simp add: flash_def add_def add_anims_def flash_steps_def prop_of_def Let_def upt_rec)

lemma flash_target_eq:
  "in_range (all_lines s) tg \<Longrightarrow>
   flash_target lc rc tg t il s =
     Inr (Suc (length (elements (dwg s))),
          add_anims (call_steps lc rc (all_lines s) (tg, t, il)) s)"
  by (cases tg)
     (simp_all add: flash_target_def flash_eq call_steps_def target_handle_def in_range_def
        getitem_list_def)

lemma run_flashes_eq:
  "list_all (\<lambda>call. in_range (all_lines s) (fst call)) calls \<Longrightarrow>
   run_flashes lc rc calls s =
     Inr (add_anims (concat (map (call_steps lc rc (all_lines s)) calls)) s)"
proof (induction calls arbitrary: s)
  case Nil
  show ?case by (simp add: add_anims_Nil)
next
  case (Cons call calls)
  obtain tg t il where call: "call = (tg, t, il)" by (cases call)
  from Cons.prems have r: "in_range (all_lines s) tg"
    and rs: "list_all (\<lambda>call. in_range (all_lines s) (fst call)) calls"
    by (simp_all add: call)
  let ?s1 = "add_anims (call_steps lc rc (all_lines s) (tg, t, il)) s"
  have "run_flashes lc rc (call # calls) s = run_flashes lc rc calls ?s1"
    by (simp add: call flash_target_eq [OF r])
  also have "\<dots> =
      Inr (add_anims (concat (map (call_steps lc rc (all_lines ?s1)) calls)) ?s1)"
    by (rule Cons.IH) (simp add: all_lines_add_anims rs)
  also have "\<dots> =
      Inr (add_anims (concat (map (call_steps lc rc (all_lines s)) (call # calls))) s)"
    by (simp add: all_lines_add_anims add_anims_add_anims call)
  finally show ?case .
qed

lemma rewrite_begins_range:
  "elements d = pre @ as @ post \<Longrightarrow> list_all has_begin as \<Longrightarrow>
   rewrite_begins get_id final [length pre..<length pre + length as] d =
     Inr (d\<lparr>elements := pre @ map (rechain (get_id final)) as @ post\<rparr>)"
proof (induction as arbitrary: pre d)
  case Nil
  then show ?case by simp
next
  case (Cons a as)
  from Cons.prems obtain bg where bg: "getitem ''begin'' a = Inr bg"
    by (auto simp: has_begin_def split: sum.splits)
  have nth: "elements d ! length pre = a"
    by (simp add: Cons.prems(1))
  have upd: "(elements d)[length pre := rechain (get_id final) a] =
      (pre @ [rechain (get_id final) a]) @ as @ post"
    by (simp add: Cons.prems(1))
  let ?d = "d\<lparr>elements := (pre @ [rechain (get_id final) a]) @ as @ post\<rparr>"
  have idx: "[length pre..<length pre + length (a # as)] =
      length pre # [length (pre @ [rechain (get_id final) a])..<
        length (pre @ [rechain (get_id final) a]) + length as]"
    by (simp del: upt_Suc add: upt_conv_Cons)
  have ra: "setitem ''begin'' (bg @ ''; '' @ get_id final @ ''.end'' @ bg) a =
      rechain (get_id final) a"
    by (simp add: rechain_def chained_def begin_of_def bg)
  have "rewrite_begins get_id final [length pre..<length pre + length (a # as)] d =
      rewrite_begins get_id final
        [length (pre @ [rechain (get_id final) a])..<
          length (pre @ [rechain (get_id final) a]) + length as] ?d"
    by (simp only: idx rewrite_begins.simps nth bg sum.case ra upd)
  also have "\<dots> = Inr (?d\<lparr>elements := (pre @ [rechain (get_id final) a]) @
      map (rechain (get_id final)) as @ post\<rparr>)"
    using Cons.prems(2) by (intro Cons.IH) simp_all
  finally show ?case by simp
qed

lemma length_static_elements: "length static_elements = 18"
  by (simp add: static_elements_def)

lemma length_anim_elements: "length anim_elements = 32"
  by (simp add: anim_elements_def all_flash_calls_def flash_calls_def call_steps_def
      flash_steps_def)

lemma has_begin_steps: "list_all has_begin (flash_steps h oc t il)"
  by (simp add: flash_steps_def has_begin_def highlight_step_def restore_step_def)

lemma has_begin_anim_elements: "list_all has_begin anim_elements"
  unfolding anim_elements_def list_all_iff
  using has_begin_steps by (auto simp: call_steps_def list_all_iff)

lemma script_flashes_eq: "script_flashes 16 17 static_state = Inr (49, flashed_state)"
proof -
  have al: "all_lines static_state = [0, 1, 2, 3, 4, 5, 6, 7, 8, 9]"
    by (simp add: static_state_def)
  have len: "length (elements (dwg static_state)) = 18"
    by (simp add: static_state_def static_drawing_def length_static_elements)
  have r0: "in_range (all_lines static_state) LeftCircle"
    by (simp add: in_range_def)
  let ?s1 = "add_anims (call_steps 16 17 (all_lines static_state) (LeftCircle, 0, False))
      static_state"
  have rs: "list_all (\<lambda>call. in_range (all_lines ?s1) (fst call)) flash_calls"
    by (simp add: all_lines_add_anims al flash_calls_def in_range_def)
  let ?s2 = "add_anims (concat (map (call_steps 16 17 (all_lines ?s1)) flash_calls)) ?s1"
  have r1: "in_range (all_lines ?s2) RightCircle"
    by (simp add: in_range_def)
  have "script_flashes 16 17 static_state =
      Inr (Suc (length (elements (dwg ?s2))),
           add_anims (call_steps 16 17 (all_lines ?s2) (RightCircle, 6, False)) ?s2)"
    by (simp only: script_flashes_def flash_target_eq [OF r0] run_flashes_eq [OF rs]
        flash_target_eq [OF r1] sum.case prod.case)
  also have "add_anims (call_steps 16 17 (all_lines ?s2) (RightCircle, 6, False)) ?s2 =
      flashed_state"
    by (simp add: add_anims_add_anims all_lines_add_anims al flashed_state_def
        anim_elements_def all_flash_calls_def)
  also have "Suc (length (elements (dwg ?s2))) = 49"
    by (simp add: add_anims_def len al flash_calls_def call_steps_def flash_steps_def)
  finally show ?thesis .
qed

lemma before_rewrite_eq: "before_rewrite = Inr (49, flashed_state)"
  by (simp only: before_rewrite_def draw_static_eq script_flashes_eq sum.case prod.case)

lemma elements_flashed: "elements (dwg flashed_state) = static_elements @ anim_elements"
  by (simp add: flashed_state_def add_anims_def static_state_def static_drawing_def)

lemma anims_flashed: "anims flashed_state = [18..<50]"
  by (simp add: flashed_state_def add_anims_def static_state_def static_drawing_def
      length_static_elements length_anim_elements)

lemma script_eq: "script get_id = Inr (final_state get_id)"
proof -
  have el: "elements (dwg flashed_state) = static_elements @ anim_elements @ []"
    by (simp add: elements_flashed)
  have an: "anims flashed_state =
      [length static_elements..<length static_elements + length anim_elements]"
    by (simp add: anims_flashed length_static_elements length_anim_elements)
  have rw: "rewrite_begins get_id 49 (anims flashed_state) (dwg flashed_state) =
      Inr ((dwg flashed_state)
        \<lparr>elements := static_elements @ map (rechain (get_id 49)) anim_elements @ []\<rparr>)"
    unfolding an by (rule rewrite_begins_range [OF el has_begin_anim_elements])
  have "script get_id =
      Inr (saveas ''cayley_active.svg'' (flashed_state\<lparr>dwg := (dwg flashed_state)
        \<lparr>elements := static_elements @ map (rechain (get_id 49)) anim_elements @ []\<rparr>\<rparr>))"
    by (simp only: script_def draw_static_eq animate_def script_flashes_eq rw sum.case
        prod.case)
  also have "\<dots> = Inr (final_state get_id)"
    by (simp add: saveas_def Let_def final_state_def active_drawing_def
        length_static_elements length_anim_elements
        flashed_state_def add_anims_def static_state_def static_drawing_def)
  finally show ?thesis .
qed

lemma saved_files_eq:
  "saved_files get_id =
     [(''cayley.svg'', static_drawing), (''cayley_active.svg'', active_drawing get_id)]"
  by (simp add: saved_files_def script_eq final_state_def)

subsection \<open>The six ring points\<close>

lemma cos_240: "cos (4 * pi / 3) = - 1 / 2"
proof -
  have "cos (4 * pi / 3) = cos (pi / 3 + pi)" by (simp add: field_simps)
  also have "\<dots> = - cos (pi / 3)" by (rule cos_periodic_pi)
  finally show ?thesis by (simp add: cos_60)
qed

lemma sin_240: "sin (4 * pi / 3) = - sqrt 3 / 2"
proof -
  have "sin (4 * pi / 3) = sin (pi / 3 + pi)" by (simp add: field_simps)
  also have "\<dots> = - sin (pi / 3)" by (rule sin_periodic_pi)
  finally show ?thesis by (simp add: sin_60)
qed

lemma cos_300: "cos (5 * pi / 3) = 1 / 2"
proof -
  have "cos (5 * pi / 3) = cos (2 * pi - pi / 3)" by (simp add: field_simps)
  also have "\<dots> = cos (pi / 3)" by (rule cos_2pi_minus)
  finally show ?thesis by (simp add: cos_60)
qed

lemma sin_300: "sin (5 * pi / 3) = - sqrt 3 / 2"
proof -
  have "sin (5 * pi / 3) = sin (2 * pi - pi / 3)" by (simp add: field_simps)
  also have "\<dots> = - sin (pi / 3)" by (rule sin_2pi_minus)
  finally show ?thesis by (simp add: sin_60)
qed

lemma ring_point_values:
  "ring_point (x, y) r 0 = (x + r, y)"
  "ring_point (x, y) r 1 = (x + r / 2, y - sqrt 3 / 2 * r)"
  "ring_point (x, y) r (Suc 0) = (x + r / 2, y - sqrt 3 / 2 * r)"
  "ring_point (x, y) r 2 = (x - r / 2, y - sqrt 3 / 2 * r)"
  "ring_point (x, y) r 3 = (x - r, y)"
  "ring_point (x, y) r 4 = (x - r / 2, y + sqrt 3 / 2 * r)"
  "ring_point (x, y) r 5 = (x + r / 2, y + sqrt 3 / 2 * r)"
  using cos_60 sin_60 cos_120 sin_120 cos_240 sin_240 cos_300 sin_300
  by (simp_all add: ring_point_def)

lemma ring_centers_values:
  "ring_centers =
     [(155, 65), (130, 65 - 25 * sqrt 3), (80, 65 - 25 * sqrt 3),
      (55, 65), (80, 65 + 25 * sqrt 3), (130, 65 + 25 * sqrt 3)]"
  by (simp add: ring_centers_eq rp_def center_def big_radius_def ring_point_values)

lemma distinct_ring_centers: "distinct ring_centers"
  by (simp add: ring_centers_values)

subsection \<open>What the ring loop draws\<close>

lemma set_enumerate_py:
  "set (enumerate_py k xs) = {(k + m, xs ! m) | m. m < length xs}"
proof (induction xs arbitrary: k)
  case Nil
  show ?case by simp
next
  case (Cons x xs)
  show ?case
  proof (rule set_eqI)
    fix p
    show "p \<in> set (enumerate_py k (x # xs)) \<longleftrightarrow>
        p \<in> {(k + m, (x # xs) ! m) | m. m < length (x # xs)}"
    proof
      assume "p \<in> set (enumerate_py k (x # xs))"
      then consider "p = (k, x)" | m where "m < length xs" "p = (Suc k + m, xs ! m)"
        by (auto simp: Cons.IH)
      then show "p \<in> {(k + m, (x # xs) ! m) | m. m < length (x # xs)}"
      proof cases
        case 1
        then have "p = (k + 0, (x # xs) ! 0)" by simp
        then show ?thesis by blast
      next
        case 2
        then have "p = (k + Suc m, (x # xs) ! Suc m)" "Suc m < length (x # xs)" by simp_all
        then show ?thesis by blast
      qed
    next
      assume "p \<in> {(k + m, (x # xs) ! m) | m. m < length (x # xs)}"
      then obtain m where m: "m < length (x # xs)" "p = (k + m, (x # xs) ! m)" by blast
      show "p \<in> set (enumerate_py k (x # xs))"
      proof (cases m)
        case 0
        with m show ?thesis by simp
      next
        case (Suc m')
        with m have "p = (Suc k + m', xs ! m')" "m' < length xs" by simp_all
        then show ?thesis by (auto simp: Cons.IH)
      qed
    qed
  qed
qed

lemma new_elements_extend: "new_elements s (extend es s) = es"
  by (simp add: new_elements_def extend_def)

lemma map_nth_range: "map (\<lambda>l. (xs @ es) ! l) [length xs..<length xs + length es] = es"
  by (rule nth_equalityI) (auto simp: nth_append)

lemma new_lines_extend:
  "map (\<lambda>l. elements (dwg (extend es s)) ! l)
     (drop (length (all_lines s)) (all_lines (extend es s))) = es"
  by (simp add: extend_def map_nth_range)

lemma skip_pair_rules:
  "i < j \<Longrightarrow>
   skip_pair i j =
     (i = j \<or> i mod 3 = j mod 3 \<or> (i mod 3 = 1 \<and> j mod 3 = 2) \<or>
      (i mod 3 = 2 \<and> j mod 3 = 1) \<or> (i = 0 \<and> j = 3))"
  by (auto simp: skip_pair_def)

lemma set_kept:
  "set (kept i c (enumerate_py 0 rc)) =
     {edge_line c (rc ! j) | j. j < length rc \<and> \<not> skip_pair i j}"
  by (force simp: kept_def set_enumerate_py)

lemma set_ring_edges:
  "set (new_elements s (draw_ring_edges rc s)) =
     {edge_line (rc ! i) (rc ! j) | i j. i < length rc \<and> j < length rc \<and> \<not> skip_pair i j}"
  by (force simp: draw_ring_edges_extend new_elements_extend set_kept set_enumerate_py)

lemma ring_line_mem:
  assumes "distinct rc" and "i < length rc" and "j < length rc"
  shows "(Line (rc ! i) (rc ! j) c w \<in> set (new_elements s (draw_ring_edges rc s))) =
           (\<not> skip_pair i j \<and> c = Some edge_color \<and> w = Some edge_stroke)"
  using assms by (auto simp: set_ring_edges edge_line_def nth_eq_iff_index_eq)

section \<open>The edge selector\<close>

text \<open>
  Claim C1. For every pair of ring-node indices \<open>i < j\<close>, the loop of lines 64-80 draws
  a line between ring node \<open>i\<close> and ring node \<open>j\<close> exactly when none of the skip rules
  fires: \<open>i = j\<close>; \<open>i mod 3 = j mod 3\<close>; \<open>(i mod 3, j mod 3)\<close> is \<open>(1, 2)\<close> or \<open>(2, 1)\<close>;
  \<open>(i, j) = (0, 3)\<close>. A line it draws has the default stroke colour and width, and the
  handles it appends to \<^verbatim>\<open>all_lines\<close> are those of the lines it draws, in order. The ring
  nodes are told apart by their positions, which are pairwise different.
\<close>

theorem ring_edge_selection:
  assumes "distinct rc" and "i < j" and "j < length rc"
  shows "(Line (rc ! i) (rc ! j) c w \<in> set (new_elements s (draw_ring_edges rc s))) =
           (\<not> (i = j \<or> i mod 3 = j mod 3 \<or> (i mod 3 = 1 \<and> j mod 3 = 2) \<or>
               (i mod 3 = 2 \<and> j mod 3 = 1) \<or> (i = 0 \<and> j = 3)) \<and>
            c = Some edge_color \<and> w = Some edge_stroke) \<and>
         map (\<lambda>l. elements (dwg (draw_ring_edges rc s)) ! l)
           (drop (length (all_lines s)) (all_lines (draw_ring_edges rc s))) =
           new_elements s (draw_ring_edges rc s)"
proof
  from assms have i: "i < length rc" by simp
  show "(Line (rc ! i) (rc ! j) c w \<in> set (new_elements s (draw_ring_edges rc s))) =
           (\<not> (i = j \<or> i mod 3 = j mod 3 \<or> (i mod 3 = 1 \<and> j mod 3 = 2) \<or>
               (i mod 3 = 2 \<and> j mod 3 = 1) \<or> (i = 0 \<and> j = 3)) \<and>
            c = Some edge_color \<and> w = Some edge_stroke)"
    by (simp only: ring_line_mem [OF assms(1) i assms(3)] skip_pair_rules [OF assms(2)])
  show "map (\<lambda>l. elements (dwg (draw_ring_edges rc s)) ! l)
           (drop (length (all_lines s)) (all_lines (draw_ring_edges rc s))) =
           new_elements s (draw_ring_edges rc s)"
    by (simp only: draw_ring_edges_extend new_lines_extend new_elements_extend)
qed

text \<open>
  The selector at the script's own ring: the pair \<open>(0, 1)\<close> is drawn, the pair \<open>(0, 3)\<close>
  is not.
\<close>

theorem ring_edge_selection_witness:
  "distinct ring_centers \<and> (0::nat) < 1 \<and> 1 < length ring_centers \<and>
   (0::nat) < 3 \<and> 3 < length ring_centers \<and>
   Line (ring_centers ! 0) (ring_centers ! 1) (Some edge_color) (Some edge_stroke)
     \<in> set (new_elements init_state (draw_ring_edges ring_centers init_state)) \<and>
   Line (ring_centers ! 0) (ring_centers ! 3) (Some edge_color) (Some edge_stroke)
     \<notin> set (new_elements init_state (draw_ring_edges ring_centers init_state))"
proof -
  have d: "distinct ring_centers" by (rule distinct_ring_centers)
  have l: "length ring_centers = 6" by (simp add: ring_centers_eq)
  have a: "(0::nat) < 1" and b: "1 < length ring_centers"
    and a': "(0::nat) < 3" and b': "3 < length ring_centers" by (simp_all add: l)
  show ?thesis
    using ring_edge_selection [OF d a b, of "Some edge_color" "Some edge_stroke" init_state]
      ring_edge_selection [OF d a' b', of "Some edge_color" "Some edge_stroke" init_state]
      d l
    by simp
qed

section \<open>Geometry\<close>

lemma circle_dist:
  assumes "0 \<le> r"
  shows "sqrt ((r * cos a)\<^sup>2 + (r * sin a)\<^sup>2) = r"
proof -
  have "(r * cos a)\<^sup>2 + (r * sin a)\<^sup>2 = r\<^sup>2 * ((cos a)\<^sup>2 + (sin a)\<^sup>2)"
    by (simp only: power_mult_distrib distrib_left)
  also have "\<dots> = r\<^sup>2"
    by (simp only: sin_cos_squared_add2 mult_1_right)
  finally show ?thesis
    using assms by (simp only: real_sqrt_abs abs_of_nonneg)
qed

text \<open>
  Claim C5. For every centre \<open>(cx, cy)\<close> and radius \<open>r\<close>, \<^verbatim>\<open>center_list\<close> returns exactly six
  points, point \<open>i\<close> being \<open>(cx + r cos (2\<pi>i/6), cy - r sin (2\<pi>i/6))\<close>; each lies at
  Euclidean distance \<open>r\<close> from the centre (a radius is not negative); the fan points are
  \<open>(cx - d, cy)\<close> and \<open>(cx + d, cy)\<close> for the fan distance \<open>d\<close>.
\<close>

theorem center_list_geometry:
  assumes "i < 6"
  shows "length (center_list (cx, cy) r) = 6 \<and>
         center_list (cx, cy) r ! i =
           (cx + r * cos (2 * pi * real i / 6), cy - r * sin (2 * pi * real i / 6)) \<and>
         (0 \<le> r \<longrightarrow> euclid_dist (center_list (cx, cy) r ! i) (cx, cy) = r) \<and>
         outer_left_of (cx, cy) d = (cx - d, cy) \<and>
         outer_right_of (cx, cy) d = (cx + d, cy)"
proof -
  have pt: "center_list (cx, cy) r ! i =
      (cx + r * cos (2 * pi * real i / 6), cy - r * sin (2 * pi * real i / 6))"
    using assms by (simp add: center_list_def ring_point_def mult.commute)
  have ds: "euclid_dist (center_list (cx, cy) r ! i) (cx, cy) = r" if "0 \<le> r"
    using circle_dist [OF that, of "2 * pi * real i / 6"]
    by (simp only: pt euclid_dist_def fst_conv snd_conv add_diff_cancel_left')
       (simp add: power2_eq_square)
  show ?thesis
    using pt ds by (simp add: center_list_def outer_left_of_def outer_right_of_def)
qed

text \<open>The same at the script's constants, for ring point 1.\<close>

theorem center_list_geometry_witness:
  "(1::nat) < 6 \<and> length ring_centers = 6 \<and>
   ring_centers ! 1 = (105 + 50 * cos (2 * pi * real 1 / 6), 65 - 50 * sin (2 * pi * real 1 / 6)) \<and>
   (0::real) \<le> 50 \<and>
   euclid_dist (ring_centers ! 1) center = 50 \<and>
   outer_left = (15, 65) \<and> outer_right = (195, 65)"
  using center_list_geometry [of 1 105 65 50 90]
  by (auto simp: ring_centers_def center_def big_radius_def outer_left_def outer_right_def
      fan_dist_def)

section \<open>Animations\<close>

subsection \<open>Animation steps\<close>

lemma highlight_step_eq:
  "highlight_step p h oc t =
     Animate p h [(''from'', oc), (''to'', col_g), (''begin'', fmt_begin t), (''dur'', ''1.0s'')]"
  by (simp add: highlight_step_def)

lemma restore_step_eq:
  "restore_step p h oc t =
     Animate p h
       [(''from'', col_g), (''to'', oc), (''begin'', fmt_begin (t + 1)), (''dur'', ''1.2s'')]"
  by (simp add: restore_step_def)


lemma fmt_begin_values:
  "fmt_begin 0 = ''+0.00s''" "fmt_begin 1 = ''+1.00s''"
  "fmt_begin (1 / 2) = ''+0.50s''" "fmt_begin (3 / 2) = ''+1.50s''"
  "fmt_begin 2 = ''+2.00s''" "fmt_begin (5 / 2) = ''+2.50s''"
  "fmt_begin 3 = ''+3.00s''" "fmt_begin (7 / 2) = ''+3.50s''"
  "fmt_begin 4 = ''+4.00s''" "fmt_begin (9 / 2) = ''+4.50s''"
  "fmt_begin 5 = ''+5.00s''" "fmt_begin (11 / 2) = ''+5.50s''"
  "fmt_begin 6 = ''+6.00s''" "fmt_begin (13 / 2) = ''+6.50s''"
  "fmt_begin 7 = ''+7.00s''"
  by (simp_all add: fmt_begin_def fmt_2f_def round_half_even_def digit_char_def Let_def)

lemma flash_scenario:
  "new_elements s (snd (flash h col_n 0 False s)) =
     [Animate ''fill'' h
        [(''from'', col_n), (''to'', col_g), (''begin'', ''+0.00s''), (''dur'', ''1.0s'')],
      Animate ''fill'' h
        [(''from'', col_g), (''to'', col_n), (''begin'', ''+1.00s''), (''dur'', ''1.2s'')]]"
  by (simp add: flash_eq add_anims_def new_elements_def flash_steps_def prop_of_def
      highlight_step_eq restore_step_eq fmt_begin_values)

lemma fmt_2f_exact:
  "fmt_2f (real m / 100) =
     dec_digits (m div 100) @ ''.'' @ [digit_char (m div 10), digit_char m]"
  by (simp add: fmt_2f_def round_half_even_def Let_def)

subsection \<open>begin attributes\<close>

lemma map_of_assign: "map_of (assign k v kvs) = (map_of kvs)(k \<mapsto> v)"
  by (induction kvs) (auto simp: fun_eq_iff)

lemma getitem_rechain:
  "has_begin e \<Longrightarrow> getitem ''begin'' (rechain fid e) = Inr (chained fid (begin_of e))"
  by (cases e) (simp_all add: rechain_def has_begin_def map_of_assign)

lemma map_nth_range_f:
  "map (\<lambda>a. f ((xs @ es) ! a)) [length xs..<length xs + length es] = map f es"
  by (rule nth_equalityI) (auto simp: nth_append)

lemma anims_flashed_len:
  "anims flashed_state =
     [length static_elements..<length static_elements + length anim_elements]"
  by (simp add: flashed_state_def add_anims_def static_state_def static_drawing_def)

lemma step_begins_flashed: "step_begins flashed_state = map (getitem ''begin'') anim_elements"
  by (simp only: step_begins_def elements_flashed anims_flashed_len map_nth_range_f)

lemma step_begins_final:
  "step_begins (final_state get_id) =
     map (\<lambda>e. getitem ''begin'' (rechain (get_id 49) e)) anim_elements"
proof -
  let ?as = "map (rechain (get_id 49)) anim_elements"
  have "step_begins (final_state get_id) =
      map (\<lambda>a. getitem ''begin'' ((static_elements @ ?as) ! a))
        [length static_elements..<length static_elements + length ?as]"
    by (simp add: step_begins_def final_state_def active_drawing_def
        length_static_elements length_anim_elements)
  also have "\<dots> = map (getitem ''begin'') ?as"
    by (simp only: map_nth_range_f)
  finally show ?thesis by (simp add: comp_def)
qed

lemma begins_anim_elements:
  "map (getitem ''begin'') anim_elements = map (\<lambda>t. Inr (fmt_begin t)) step_times"
  by (simp add: anim_elements_def step_times_def all_flash_calls_def flash_calls_def
      call_steps_def flash_steps_def highlight_step_eq restore_step_eq)

lemma begin_of_anim_elements: "map begin_of anim_elements = map fmt_begin step_times"
  by (simp add: anim_elements_def step_times_def all_flash_calls_def flash_calls_def
      call_steps_def flash_steps_def highlight_step_eq restore_step_eq begin_of_def)

lemma rechained_begins:
  "map (\<lambda>e. getitem ''begin'' (rechain fid e)) anim_elements =
     map (\<lambda>t. Inr (chained fid (fmt_begin t))) step_times"
proof -
  have "map (\<lambda>e. getitem ''begin'' (rechain fid e)) anim_elements =
      map (\<lambda>e. Inr (chained fid (begin_of e))) anim_elements"
    using has_begin_anim_elements by (simp add: list_all_iff getitem_rechain)
  also have "\<dots> = map (\<lambda>b. Inr (chained fid b)) (map begin_of anim_elements)"
    by (simp add: comp_def)
  also have "\<dots> = map (\<lambda>t. Inr (chained fid (fmt_begin t))) step_times"
    by (simp only: begin_of_anim_elements) (simp add: comp_def)
  finally show ?thesis .
qed

lemma step_times_eq:
  "step_times =
     [0, 1, 1 / 2, 3 / 2, 1, 2, 3 / 2, 5 / 2, 1, 2, 3 / 2, 5 / 2, 2, 3, 5 / 2, 7 / 2,
      7 / 2, 9 / 2, 4, 5, 9 / 2, 11 / 2, 5, 6, 9 / 2, 11 / 2, 5, 6, 11 / 2, 13 / 2, 6, 7]"
proof -
  have "(1 / 2 + 1 :: real) = 3 / 2" "(3 / 2 + 1 :: real) = 5 / 2" "(5 / 2 + 1 :: real) = 7 / 2"
    "(7 / 2 + 1 :: real) = 9 / 2" "(9 / 2 + 1 :: real) = 11 / 2" "(11 / 2 + 1 :: real) = 13 / 2"
    by simp_all
  then show ?thesis
    by (simp add: step_times_def all_flash_calls_def flash_calls_def)
qed

lemma sublist_chained: "sublist (fid @ ''.end'') (chained fid bg)"
  unfolding sublist_def chained_def
  by (rule exI [of _ "bg @ ''; ''"], rule exI [of _ bg]) simp

lemma length_step_times: "length step_times = 32"
  by (simp add: step_times_def all_flash_calls_def flash_calls_def)

text \<open>
  Claim C3. When all flashes are scripted, the loop of lines 133-134 rewrites the begin
  attribute of every registered step, the final one included, from \<^verbatim>\<open>+Ts\<close> to
  \<^verbatim>\<open>+Ts; <id of final>.end+Ts\<close>; so every begin attribute contains the final step's end
  event. The script does not fail, whatever names the library gives to elements.
\<close>

theorem begin_rewrite_chains_every_step:
  "(case before_rewrite of
      Inl e \<Rightarrow> False
    | Inr (final, s1) \<Rightarrow>
        (case script get_id of
           Inl e \<Rightarrow> False
         | Inr s2 \<Rightarrow>
             anims s2 = anims s1 \<and> length (anims s1) = 32 \<and> final \<in> set (anims s1) \<and>
             step_begins s1 = map (\<lambda>t. Inr (''+'' @ fmt_2f t @ ''s'')) step_times \<and>
             step_begins s2 =
               map (\<lambda>t. Inr ((''+'' @ fmt_2f t @ ''s'') @ ''; '' @ get_id final @ ''.end'' @
                              (''+'' @ fmt_2f t @ ''s''))) step_times \<and>
             list_all (\<lambda>b. case b of Inl e \<Rightarrow> False
                                   | Inr bg \<Rightarrow> sublist (get_id final @ ''.end'') bg)
               (step_begins s2)))"
proof -
  have a: "anims (final_state get_id) = anims flashed_state"
    by (simp add: final_state_def anims_flashed)
  have b: "step_begins flashed_state = map (\<lambda>t. Inr (''+'' @ fmt_2f t @ ''s'')) step_times"
    by (simp add: step_begins_flashed begins_anim_elements fmt_begin_def)
  have c: "step_begins (final_state get_id) =
      map (\<lambda>t. Inr (chained (get_id 49) (fmt_begin t))) step_times"
    by (simp only: step_begins_final rechained_begins)
  have d: "list_all (\<lambda>b. case b of Inl e \<Rightarrow> False
                                   | Inr bg \<Rightarrow> sublist (get_id 49 @ ''.end'') bg)
      (step_begins (final_state get_id))"
    unfolding c by (simp add: list_all_iff sublist_chained)
  have e: "step_begins (final_state get_id) =
      map (\<lambda>t. Inr ((''+'' @ fmt_2f t @ ''s'') @ ''; '' @ get_id 49 @ ''.end'' @
                              (''+'' @ fmt_2f t @ ''s''))) step_times"
    unfolding c by (simp add: chained_def fmt_begin_def)
  have f: "length (anims flashed_state) = 32" "49 \<in> set (anims flashed_state)"
    by (simp_all add: anims_flashed)
  note all = conjI [OF a conjI [OF f(1) conjI [OF f(2) conjI [OF b conjI [OF e d]]]]]
  show ?thesis
    by (simp only: before_rewrite_eq script_eq sum.case prod.case) (rule all)
qed

subsection \<open>Counting\<close>

lemma is_animate_rechain: "is_animate (rechain fid e) = is_animate e"
  by (cases e) (simp_all add: rechain_def is_animate_def)

lemma is_animate_steps: "list_all is_animate (flash_steps h oc t il)"
  by (simp add: flash_steps_def is_animate_def highlight_step_eq restore_step_eq)

lemma is_animate_anim_elements: "list_all is_animate anim_elements"
  unfolding anim_elements_def list_all_iff
  using is_animate_steps by (auto simp: call_steps_def list_all_iff)

lemma no_animate_static: "filter is_animate static_elements = []"
  by (simp add: static_elements_def is_animate_def edge_line_def)

lemma filter_all: "list_all P xs \<Longrightarrow> filter P xs = xs"
  by (induction xs) simp_all

lemma n_animations_static: "n_animations static_drawing = 0"
  by (simp add: n_animations_def static_drawing_def no_animate_static)

lemma n_animations_active: "n_animations (active_drawing get_id) = 32"
proof -
  have "list_all is_animate (map (rechain (get_id 49)) anim_elements)"
    using is_animate_anim_elements by (simp add: list_all_iff is_animate_rechain)
  then have "filter is_animate (map (rechain (get_id 49)) anim_elements) =
      map (rechain (get_id 49)) anim_elements"
    by (rule filter_all)
  then show ?thesis
    by (simp add: n_animations_def active_drawing_def no_animate_static length_anim_elements)
qed

text \<open>
  Claim C4 speaks of 15 flash calls and 30 animation entries. Lines 116-131 are 16 calls:
  the animated file does not hold 30 entries.
\<close>

theorem animation_count_not_30: "n_animations (active_file auto_id) \<noteq> 30"
  by (simp add: active_file_def saved_files_eq n_animations_active)

text \<open>
  Claim C4, amended. The script calls \<^verbatim>\<open>flash\<close> 16 times, two steps each: the animated file
  holds exactly 32 animation entries, and the static file, saved before the first call,
  holds none.
\<close>

theorem animation_count:
  "length all_flash_calls = 16 \<and>
   map fst (saved_files get_id) = [''cayley.svg'', ''cayley_active.svg''] \<and>
   n_animations (static_file get_id) = 0 \<and>
   n_animations (active_file get_id) = 32"
  by (simp add: saved_files_eq static_file_def active_file_def n_animations_static
      n_animations_active all_flash_calls_def flash_calls_def)

subsection \<open>Edge order\<close>

lemma ring_centers_nth:
  "ring_centers ! 0 = rp 0" "ring_centers ! 1 = rp 1" "ring_centers ! 2 = rp 2"
  "ring_centers ! 3 = rp 3" "ring_centers ! 4 = rp 4" "ring_centers ! 5 = rp 5"
  "ring_centers ! Suc 0 = rp (Suc 0)"
  by (simp_all add: ring_centers_eq)

lemma lines_of_final:
  "lines_of (final_state get_id) = take 10 static_elements"
  by (simp add: lines_of_def final_state_def active_drawing_def static_elements_def)

text \<open>
  Claim C6. \<^verbatim>\<open>all_lines\<close> is built in a fixed order: the line from the outer left point to
  ring node 3, the line from the outer right point to ring node 0, then the ring pairs
  that are not skipped, in ascending lexicographic order of \<open>(i, j)\<close>. The list is a
  function of the script alone: it does not depend on the names the library gives to
  elements.
\<close>

theorem edge_order:
  "script_lines get_id =
     [edge_line outer_left (ring_centers ! 3), edge_line outer_right (ring_centers ! 0)] @
     map (\<lambda>p. edge_line (ring_centers ! fst p) (ring_centers ! snd p)) ring_pairs \<and>
   ring_pairs = filter (\<lambda>p. \<not> skip_pair (fst p) (snd p)) (List.product [0..<6] [0..<6]) \<and>
   sorted_wrt lex_less ring_pairs"
proof -
  have "script_lines get_id = take 10 static_elements"
    by (simp add: script_lines_def script_eq lines_of_final)
  also have "\<dots> =
     [edge_line outer_left (ring_centers ! 3), edge_line outer_right (ring_centers ! 0)] @
     map (\<lambda>p. edge_line (ring_centers ! fst p) (ring_centers ! snd p)) ring_pairs"
    by (simp add: static_elements_def ring_pairs_def ring_centers_nth)
  finally have a: "script_lines get_id =
     [edge_line outer_left (ring_centers ! 3), edge_line outer_right (ring_centers ! 0)] @
     map (\<lambda>p. edge_line (ring_centers ! fst p) (ring_centers ! snd p)) ring_pairs" .
  have b: "ring_pairs = filter (\<lambda>p. \<not> skip_pair (fst p) (snd p)) (List.product [0..<6] [0..<6])"
    by (simp add: ring_pairs_def upt6 skip_pair_def)
  have c: "sorted_wrt lex_less ring_pairs"
    by (simp add: ring_pairs_def lex_less_def)
  from a b c show ?thesis by (intro conjI)
qed

subsection \<open>Colours\<close>

lemma getitem_setitem_other:
  "k' \<noteq> k \<Longrightarrow> getitem k' (setitem k v e) = getitem k' e"
  by (cases e) (simp_all add: map_of_assign)

lemma from_to_rechain: "from_to (rechain fid e) = from_to e"
  by (simp add: rechain_def from_to_def getitem_setitem_other)

lemma green_free_rechain: "green_free (rechain fid e) = green_free e"
proof (cases e)
  case (Animate p h as)
  have "green_free (rechain fid e) =
      (from_to (rechain fid e) \<in> {(Inr col_n, Inr col_g), (Inr col_g, Inr col_n)})"
    by (simp add: green_free_def rechain_def Animate)
  also have "\<dots> = green_free e"
    by (simp add: from_to_rechain green_free_def Animate)
  finally show ?thesis .
qed (simp_all add: rechain_def)

lemma green_free_steps: "list_all green_free (flash_steps h col_n t il)"
  by (simp add: flash_steps_def green_free_def from_to_def highlight_step_eq restore_step_eq)

lemma green_free_anim_elements: "list_all green_free anim_elements"
  unfolding anim_elements_def list_all_iff
  using green_free_steps by (auto simp: call_steps_def list_all_iff)

lemma green_free_static: "list_all green_free static_elements"
  by (simp add: static_elements_def green_free_def edge_line_def edge_color_def)

lemma colours_distinct:
  "col_g \<noteq> col_b" "col_g \<noteq> col_r" "col_g \<noteq> col_y" "col_g \<noteq> col_n"
  "col_n \<noteq> col_b" "col_n \<noteq> col_r" "col_n \<noteq> col_y"
  by (simp_all add: col_g_def col_b_def col_r_def col_y_def col_n_def)

text \<open>
  Claim C7. Ring circle \<open>i\<close> is filled with \<^verbatim>\<open>center_colors[i]\<close>, a colour of the palette blue,
  red, green, yellow, and none of the six is green; the two fan circles and all lines are
  gray; green occurs only in animation steps, each of which goes from gray to green or
  from green to gray.
\<close>

theorem colour_use:
  "map fill_of (script_circles get_id) = map Some center_colors \<and>
   center_colors = [col_b, col_r, col_y, col_b, col_r, col_y] \<and>
   set center_colors \<subseteq> {col_b, col_r, col_g, col_y} \<and>
   col_g \<notin> set center_colors \<and>
   (case draw_static of
      Inl e \<Rightarrow> False
    | Inr (left_circle, right_circle, s) \<Rightarrow>
        map (\<lambda>c. fill_of (elements (dwg s) ! c)) [left_circle, right_circle] =
          [Some fan_color, Some fan_color]) \<and>
   fan_color = col_n \<and> edge_color = col_n \<and>
   map stroke_of (script_lines get_id) = replicate 10 (Some col_n) \<and>
   col_n \<notin> {col_b, col_r, col_g, col_y} \<and>
   list_all green_free (final_elements get_id)"
proof -
  have a: "map fill_of (script_circles get_id) = map Some center_colors"
    by (simp add: script_circles_def script_eq circles_of_def final_state_def
        active_drawing_def static_elements_def fill_of_def center_colors_def)
  have b: "center_colors = [col_b, col_r, col_y, col_b, col_r, col_y]"
    by (simp add: center_colors_def)
  have c: "set center_colors \<subseteq> {col_b, col_r, col_g, col_y}"
    by (simp add: center_colors_def)
  have d: "col_g \<notin> set center_colors"
    using colours_distinct by (simp add: center_colors_def)
  have e: "(case draw_static of
      Inl e \<Rightarrow> False
    | Inr (left_circle, right_circle, s) \<Rightarrow>
        map (\<lambda>c. fill_of (elements (dwg s) ! c)) [left_circle, right_circle] =
          [Some fan_color, Some fan_color])"
    by (simp add: draw_static_eq static_state_def static_drawing_def static_elements_def
        fill_of_def fan_color_def)
  have e': "fan_color = col_n" "edge_color = col_n"
    by (simp_all add: fan_color_def edge_color_def)
  have f: "map stroke_of (script_lines get_id) = replicate 10 (Some col_n)"
    by (simp add: script_lines_def script_eq lines_of_final static_elements_def stroke_of_def
        edge_line_def edge_color_def numeral_eq_Suc)
  have g: "col_n \<notin> {col_b, col_r, col_g, col_y}"
    using colours_distinct by auto
  have h: "list_all green_free (final_elements get_id)"
    using green_free_static green_free_anim_elements
    by (auto simp: final_elements_def script_eq final_state_def active_drawing_def
        list_all_iff green_free_rechain)
  from a b c d e e' f g h show ?thesis by (intro conjI)
qed

subsection \<open>Files\<close>

text \<open>
  Claim C8 says the canvas is 210 by 130. The script passes \<^verbatim>\<open>(210, 130)\<close> as the first
  positional argument of \<^verbatim>\<open>Drawing\<close>, which is the file name: the canvas of the drawing, and
  of both files, is the default.
\<close>

theorem canvas_is_default:
  "filename (dwg init_state) = Tuple 210 130 \<and>
   canvas (dwg init_state) = (Percent 100, Percent 100) \<and>
   map (\<lambda>f. (fst f, canvas (snd f))) (saved_files get_id) =
     [(''cayley.svg'', (Percent 100, Percent 100)),
      (''cayley_active.svg'', (Percent 100, Percent 100))]"
  by (simp add: init_state_def Drawing_def saved_files_eq static_drawing_def
      active_drawing_def)


text \<open>
  Claim C10. \<^verbatim>\<open>all_lines\<close> has exactly 10 elements, the two fan edges at positions 0 and 1
  and the eight ring edges at positions 2 to 9; every index the flash calls use is below
  10, and the script ends without an IndexError.
\<close>

theorem line_accesses_in_bounds:
  "(case script get_id of
      Inl e \<Rightarrow> False
    | Inr s \<Rightarrow>
        length (all_lines s) = 10 \<and>
        take 2 (lines_of s) =
          [edge_line outer_left (ring_centers ! 3), edge_line outer_right (ring_centers ! 0)] \<and>
        drop 2 (lines_of s) =
          map (\<lambda>p. edge_line (ring_centers ! fst p) (ring_centers ! snd p)) ring_pairs \<and>
        length ring_pairs = 8 \<and>
        line_uses = [0, 7, 3, 9, 5, 1, 0, 6, 4, 8, 2, 1] \<and>
        list_all (\<lambda>k. k < length (all_lines s)) line_uses \<and>
        set line_uses = {0..<10})"
proof -
  have a: "line_uses = [0, 7, 3, 9, 5, 1, 0, 6, 4, 8, 2, 1]"
    by (simp add: line_uses_def all_flash_calls_def flash_calls_def)
  have b: "set line_uses = {0..<10}"
    unfolding a by (auto simp: numeral_eq_Suc less_Suc_eq)
  have c: "take 2 (lines_of (final_state get_id)) =
      [edge_line outer_left (ring_centers ! 3), edge_line outer_right (ring_centers ! 0)]"
    by (simp add: lines_of_final static_elements_def ring_centers_nth)
  have d: "drop 2 (lines_of (final_state get_id)) =
      map (\<lambda>p. edge_line (ring_centers ! fst p) (ring_centers ! snd p)) ring_pairs"
    by (simp add: lines_of_final static_elements_def ring_centers_nth ring_pairs_def)
  have e: "length (all_lines (final_state get_id)) = 10"
    by (simp add: final_state_def)
  have f: "list_all (\<lambda>k. k < length (all_lines (final_state get_id))) line_uses"
    by (simp add: a e)
  have g: "length ring_pairs = 8" by (simp add: ring_pairs_def)
  note all = conjI [OF e conjI [OF c conjI [OF d conjI [OF g conjI [OF a conjI [OF f b]]]]]]
  show ?thesis
    by (simp only: script_eq sum.case) (rule all)
qed

end
